theory Spec2Isabelle
  imports Complex_Main "HOL-Library.Monad_Syntax" "HOL-Library.Log_Nat"
begin

section \<open>JavaScript numbers\<close>

text \<open>
  The source computes with JavaScript numbers, the IEEE 754 doubles. A number is modelled
  as a rational, or one of the three values that are not finite: \<open>Infinity\<close>,
  \<open>-Infinity\<close> and \<open>NaN\<close>. Every sum, product and quotient of finite numbers is rounded
  as the double arithmetic rounds it: to the nearest double, a tie to the one with an even
  significand, and to an infinity beyond the largest double. The two zeros are one value;
  every divisor in the source is a positive constant or an unsigned image width, so a zero
  divisor is always \<open>+0\<close>.
\<close>

datatype number = Finite rat | PosInf | NegInf | NaN

text \<open>\<open>pow2 k\<close> is 2 to the power \<open>k\<close>, and \<open>floor_log2 a\<close> the exponent of a positive \<open>a\<close>.\<close>

definition pow2 :: "int \<Rightarrow> rat" where
  "pow2 k = (if 0 \<le> k then 2 ^ nat k else 1 / 2 ^ nat (- k))"

definition floor_log2 :: "rat \<Rightarrow> int" where
  "floor_log2 a =
     (let (p, q) = quotient_of a;
          d = bitlen p - bitlen q
      in if pow2 d \<le> a then d else d - 1)"

definition round_half_even :: "rat \<Rightarrow> int" where
  "round_half_even m =
     (let f = \<lfloor>m\<rfloor>;
          d = m - of_int f
      in if d < 1 / 2 then f
         else if 1 / 2 < d then f + 1
         else if even f then f else f + 1)"

text \<open>
  The double nearest to a rational: 53 bits of significand \<open>m\<close>, exponents \<open>e\<close> from -1022
  (below which the spacing stays that of the subnormal numbers) to 1023. The result is an
  infinity when the rounded value reaches 2 to the power 1024, that is when the exponent
  is 1024 or more, or is 1023 and the significand rounds up to 2 to the power 53.
\<close>

definition round_double :: "rat \<Rightarrow> number" where
  "round_double q =
     (if q = 0 then Finite 0
      else
        (let a = \<bar>q\<bar>;
             e = max (floor_log2 a) (- 1022);
             ulp = pow2 (e - 52);
             m = round_half_even (a / ulp)
         in if 1024 \<le> e \<or> (e = 1023 \<and> 2 ^ 53 \<le> m)
            then (if 0 < q then PosInf else NegInf)
            else Finite (if 0 < q then of_int m * ulp else - (of_int m * ulp))))"

text \<open>A decimal literal of the source, such as \<open>0.95\<close>: the double nearest to it.\<close>

definition literal :: "rat \<Rightarrow> number" where
  "literal q = round_double q"

instantiation number :: "{zero, one, plus, uminus, minus, times, inverse, ord}"
begin

definition zero_number :: number where "0 = Finite 0"

definition one_number :: number where "1 = Finite 1"

fun plus_number :: "number \<Rightarrow> number \<Rightarrow> number" where
  "NaN + y = NaN"
| "x + NaN = NaN"
| "PosInf + NegInf = NaN"
| "NegInf + PosInf = NaN"
| "PosInf + y = PosInf"
| "NegInf + y = NegInf"
| "x + PosInf = PosInf"
| "x + NegInf = NegInf"
| "Finite a + Finite b = round_double (a + b)"

fun uminus_number :: "number \<Rightarrow> number" where
  "- NaN = NaN"
| "- PosInf = NegInf"
| "- NegInf = PosInf"
| "- Finite a = Finite (- a)"

definition minus_number :: "number \<Rightarrow> number \<Rightarrow> number" where
  "x - y = x + (- y :: number)"

fun times_number :: "number \<Rightarrow> number \<Rightarrow> number" where
  "Finite a * Finite b = round_double (a * b)"
| "NaN * y = NaN"
| "x * NaN = NaN"
| "Finite a * PosInf = (if a = 0 then NaN else if 0 < a then PosInf else NegInf)"
| "Finite a * NegInf = (if a = 0 then NaN else if 0 < a then NegInf else PosInf)"
| "PosInf * Finite b = (if b = 0 then NaN else if 0 < b then PosInf else NegInf)"
| "NegInf * Finite b = (if b = 0 then NaN else if 0 < b then NegInf else PosInf)"
| "PosInf * PosInf = PosInf"
| "PosInf * NegInf = NegInf"
| "NegInf * PosInf = NegInf"
| "NegInf * NegInf = PosInf"

fun divide_number :: "number \<Rightarrow> number \<Rightarrow> number" where
  "divide (Finite a) (Finite b) =
     (if b = 0 then (if a = 0 then NaN else if 0 < a then PosInf else NegInf)
      else round_double (a / b))"
| "divide NaN y = NaN"
| "divide x NaN = NaN"
| "divide (Finite a) PosInf = Finite 0"
| "divide (Finite a) NegInf = Finite 0"
| "divide PosInf (Finite b) = (if 0 \<le> b then PosInf else NegInf)"
| "divide NegInf (Finite b) = (if 0 \<le> b then NegInf else PosInf)"
| "divide PosInf y = NaN"
| "divide NegInf y = NaN"

definition inverse_number :: "number \<Rightarrow> number" where
  "inverse x = divide (Finite 1) (x :: number)"

fun less_number :: "number \<Rightarrow> number \<Rightarrow> bool" where
  "Finite a < Finite b \<longleftrightarrow> a < b"
| "NaN < y \<longleftrightarrow> False"
| "x < NaN \<longleftrightarrow> False"
| "x < NegInf \<longleftrightarrow> False"
| "PosInf < y \<longleftrightarrow> False"
| "NegInf < y \<longleftrightarrow> True"
| "Finite a < PosInf \<longleftrightarrow> True"

definition less_eq_number :: "number \<Rightarrow> number \<Rightarrow> bool" where
  "x \<le> y \<longleftrightarrow> x < y \<or> (x = y \<and> x \<noteq> (NaN :: number))"

instance ..

end

text \<open>An unsigned integer of the DOM (an image width) read as a number.\<close>

definition num :: "nat \<Rightarrow> number" where
  "num n = Finite (of_nat n)"

definition is_finite :: "number \<Rightarrow> bool" where
  "is_finite x = (case x of Finite _ \<Rightarrow> True | _ \<Rightarrow> False)"

text \<open>The strict inequality \<open>!==\<close> on two numbers: \<open>NaN\<close> differs from everything.\<close>

definition strict_neq :: "number \<Rightarrow> number \<Rightarrow> bool" where
  "strict_neq x y \<longleftrightarrow> x = NaN \<or> y = NaN \<or> x \<noteq> y"

text \<open>An unsigned integer inside a template string: its decimal digits.\<close>

fun show_nat :: "nat \<Rightarrow> string" where
  "show_nat n =
     (if n < 10 then [''0123456789'' ! n]
      else show_nat (n div 10) @ [''0123456789'' ! (n mod 10)])"

declare show_nat.simps [simp del]

section \<open>Types of the application (types.ts)\<close>

datatype position = Center | TopLeft | TopRight | BottomLeft | BottomRight | Tiled

datatype outputFormat = ImageJpeg | ImagePng | ImageWebp

record WatermarkSettings =
  opacity :: number
  scale :: number
  position :: position
  margin :: number
  outputFormat :: outputFormat
  shadow :: bool
  brightness :: number
  contrast :: number
  saturation :: number

section \<open>The host: files, images, the canvas\<close>

text \<open>
  A decoded image (an \<open>HTMLImageElement\<close> after \<open>onload\<close>): its dimensions, unsigned
  integers, and its pixels, which the model keeps as an opaque number.
\<close>

record raster =
  width :: nat
  height :: nat
  pixels :: nat

text \<open>
  A data URL is represented by what the image decoder makes of it: the image, or nothing
  when \<open>onerror\<close> fires. A \<open>File\<close> has its name, whether the \<open>FileReader\<close> can read it,
  and the data URL that reading gives.
\<close>

datatype dataURL = DataURL (decodes_to: "raster option")

record File =
  name :: string
  readable :: bool
  contents :: dataURL

text \<open>The only exception the source throws is \<open>Error\<close>, with a message.\<close>

datatype error = Error (message: string)

text \<open>
  What the host decides during one call: which of two rejections of a \<open>Promise.all\<close>
  arrives first, whether \<open>getContext('2d')\<close> gives a context and whether \<open>toBlob\<close>
  gives a blob.
\<close>

record host =
  logo_read_fails_first :: bool
  logo_load_fails_first :: bool
  getContext_ok :: bool
  toBlob_ok :: bool

datatype filter = FilterNone | FilterAdjust number number number

datatype color = Transparent | Rgba nat nat nat number

text \<open>
  The drawing state of a 2D context, as the program assigned it, and the calls of
  \<open>drawImage\<close> made so far. A call records its arguments and the drawing state it was
  made under; \<open>dsize\<close> is absent for the three-argument form.
\<close>

record drawcall =
  image :: raster
  dx :: number
  dy :: number
  dsize :: "(number \<times> number) option"
  with_filter :: filter
  with_alpha :: number
  with_shadowColor :: color
  with_shadowBlur :: number
  with_shadowOffsetX :: number
  with_shadowOffsetY :: number

record context2d =
  filter' :: filter
  globalAlpha :: number
  shadowColor :: color
  shadowBlur :: number
  shadowOffsetX :: number
  shadowOffsetY :: number
  calls :: "drawcall list"

text \<open>The context of a fresh canvas.\<close>

definition fresh_context :: context2d where
  "fresh_context =
     \<lparr>filter' = FilterNone, globalAlpha = Finite 1, shadowColor = Transparent,
      shadowBlur = Finite 0, shadowOffsetX = Finite 0, shadowOffsetY = Finite 0,
      calls = []\<rparr>"

definition record_call :: "context2d \<Rightarrow> raster \<Rightarrow> number \<Rightarrow> number \<Rightarrow> (number \<times> number) option \<Rightarrow> drawcall" where
  "record_call c im x y sz =
     \<lparr>image = im, dx = x, dy = y, dsize = sz,
      with_filter = filter' c, with_alpha = globalAlpha c,
      with_shadowColor = shadowColor c, with_shadowBlur = shadowBlur c,
      with_shadowOffsetX = shadowOffsetX c, with_shadowOffsetY = shadowOffsetY c\<rparr>"

text \<open>\<open>ctx.drawImage(image, x, y)\<close> and \<open>ctx.drawImage(image, x, y, w, h)\<close>.\<close>

definition drawImage3 :: "context2d \<Rightarrow> raster \<Rightarrow> number \<Rightarrow> number \<Rightarrow> context2d" where
  "drawImage3 c im x y = c\<lparr>calls := calls c @ [record_call c im x y None]\<rparr>"

definition drawImage5 :: "context2d \<Rightarrow> raster \<Rightarrow> number \<Rightarrow> number \<Rightarrow> number \<Rightarrow> number \<Rightarrow> context2d" where
  "drawImage5 c im x y w h = c\<lparr>calls := calls c @ [record_call c im x y (Some (w, h))]\<rparr>"

text \<open>
  The blob \<open>toBlob\<close> encodes: the canvas's size, what was drawn on it, the format and
  the quality. The object URL the source returns is represented by the blob it names.
\<close>

record blob =
  blob_width :: nat
  blob_height :: nat
  blob_calls :: "drawcall list"
  blob_type :: outputFormat
  blob_quality :: number

section \<open>utils/watermark.ts\<close>

definition readFileAsDataURL :: "File \<Rightarrow> error + dataURL" where
  \<open>readFileAsDataURL f =
     (if readable f then Inr (contents f)
      else Inl (Error (''Failed to read file: "'' @ name f @ ''". It may be locked or corrupted.'')))\<close>

text \<open>The optional \<open>fileName\<close> is tested for truth: an empty name gives the short message.\<close>

definition loadImage :: "dataURL \<Rightarrow> string \<Rightarrow> error + raster" where
  \<open>loadImage src fileName =
     (case decodes_to src of
        Some img \<Rightarrow> Inr img
      | None \<Rightarrow>
          Inl (Error (if fileName \<noteq> []
            then ''Failed to load image data for "'' @ fileName
              @ ''". The file format might be unsupported or the file is corrupted.''
            else ''Failed to load image data.'')))\<close>

text \<open>
  \<open>Promise.all\<close> of two promises: both results, or the rejection that arrives first
  (\<open>second_first\<close> says which, when both reject).
\<close>

definition Promise_all :: "bool \<Rightarrow> error + 'a \<Rightarrow> error + 'b \<Rightarrow> error + ('a \<times> 'b)" where
  "Promise_all second_first p q =
     (case (p, q) of
        (Inr a, Inr b) \<Rightarrow> Inr (a, b)
      | (Inl e, Inr b) \<Rightarrow> Inl e
      | (Inr a, Inl e) \<Rightarrow> Inl e
      | (Inl e1, Inl e2) \<Rightarrow> Inl (if second_first then e2 else e1))"

text \<open>\<open>.catch(e => { throw new Error(prefix + e.message) })\<close>\<close>

definition rethrow :: "string \<Rightarrow> error + 'a \<Rightarrow> error + 'a" where
  "rethrow prefix p = (case p of Inl e \<Rightarrow> Inl (Error (prefix @ message e)) | Inr v \<Rightarrow> Inr v)"

definition MAX_DIMENSION :: nat where
  "MAX_DIMENSION = 16384"

definition too_large_error :: "string \<Rightarrow> nat \<Rightarrow> nat \<Rightarrow> error" where
  \<open>too_large_error fileName w h =
     Error (''Image "'' @ fileName @ ''" is too large ('' @ show_nat w @ ''x'' @ show_nat h
       @ ''). Max allowed dimension is '' @ show_nat MAX_DIMENSION @ ''px.'')\<close>

definition invalid_dimensions_error :: "string \<Rightarrow> error" where
  \<open>invalid_dimensions_error fileName =
     Error (''Image "'' @ fileName @ ''" has invalid dimensions.'')\<close>

definition no_context_error :: error where
  "no_context_error = Error ''System memory low. Could not create drawing context.''"

definition encode_error :: "string \<Rightarrow> error" where
  \<open>encode_error fileName =
     Error (''Failed to process "'' @ fileName
       @ ''". The resulting image might be too large/complex.'')\<close>

text \<open>Lines 73 to 75: the size the logo is drawn at.\<close>

definition logoWidth :: "raster \<Rightarrow> WatermarkSettings \<Rightarrow> number" where
  "logoWidth img s = (num (width img) * scale s) / Finite 100"

definition aspectRatio :: "raster \<Rightarrow> number" where
  "aspectRatio logo = num (height logo) / num (width logo)"

definition logoHeight :: "raster \<Rightarrow> raster \<Rightarrow> WatermarkSettings \<Rightarrow> number" where
  "logoHeight img logo s = logoWidth img s * aspectRatio logo"

text \<open>Lines 62 to 64: the enhancement filter, set only when a value is not 100.\<close>

definition apply_enhancements :: "WatermarkSettings \<Rightarrow> context2d \<Rightarrow> context2d" where
  "apply_enhancements s c =
     (if strict_neq (brightness s) (Finite 100) \<or> strict_neq (contrast s) (Finite 100)
         \<or> strict_neq (saturation s) (Finite 100)
      then c\<lparr>filter' := FilterAdjust (brightness s) (contrast s) (saturation s)\<rparr>
      else c)"

text \<open>Lines 80 to 91: the shadow.\<close>

definition configure_shadow :: "raster \<Rightarrow> WatermarkSettings \<Rightarrow> context2d \<Rightarrow> context2d" where
  "configure_shadow img s c =
     (if shadow s then
        (let shadowBase = num (max (width img) (height img)) in
         c\<lparr>shadowColor := Rgba 0 0 0 (literal (6 / 10)),
           shadowBlur := shadowBase * literal (1 / 100),
           shadowOffsetX := shadowBase * literal (3 / 1000),
           shadowOffsetY := shadowBase * literal (3 / 1000)\<rparr>)
      else
         c\<lparr>shadowColor := Transparent, shadowBlur := Finite 0,
           shadowOffsetX := Finite 0, shadowOffsetY := Finite 0\<rparr>)"

text \<open>
  Lines 98 to 102: the two loops of the tiled placement. A step that does not advance
  (zero, negative) never leaves the loop: the loops are partial, and \<open>None\<close> is the call
  that does not return.
\<close>

partial_function (option) tile_rows ::
  "raster \<Rightarrow> raster \<Rightarrow> number \<Rightarrow> number \<Rightarrow> number \<Rightarrow> number \<Rightarrow> number \<Rightarrow> number \<Rightarrow> context2d \<Rightarrow> context2d option" where
  "tile_rows img logo lw lh gap ar x y c =
     (if y < num (height img)
      then tile_rows img logo lw lh gap ar x (y + gap * ar) (drawImage5 c logo x y lw lh)
      else Some c)"

partial_function (option) tile_columns ::
  "raster \<Rightarrow> raster \<Rightarrow> number \<Rightarrow> number \<Rightarrow> number \<Rightarrow> number \<Rightarrow> number \<Rightarrow> context2d \<Rightarrow> context2d option" where
  "tile_columns img logo lw lh gap ar x c =
     (if x < num (width img)
      then Option.bind (tile_rows img logo lw lh gap ar x (Finite 0) c)
             (\<lambda>c'. tile_columns img logo lw lh gap ar (x + gap) c')
      else Some c)"

text \<open>Lines 104 to 128: the corner of the logo for the positions that are not tiled.\<close>

definition corner :: "nat \<Rightarrow> nat \<Rightarrow> number \<Rightarrow> number \<Rightarrow> number \<Rightarrow> number \<Rightarrow> position \<Rightarrow> number \<times> number" where
  "corner canvas_width canvas_height lw lh marginX marginY p =
     (case p of
        TopLeft \<Rightarrow> (marginX, marginY)
      | TopRight \<Rightarrow> (num canvas_width - lw - marginX, marginY)
      | BottomLeft \<Rightarrow> (marginX, num canvas_height - lh - marginY)
      | BottomRight \<Rightarrow> (num canvas_width - lw - marginX, num canvas_height - lh - marginY)
      | Center \<Rightarrow> ((num canvas_width - lw) / Finite 2, (num canvas_height - lh) / Finite 2)
      | Tiled \<Rightarrow> (Finite 0, Finite 0))"

text \<open>Lines 93 to 130: the placement.\<close>

definition place_logo :: "raster \<Rightarrow> raster \<Rightarrow> WatermarkSettings \<Rightarrow> context2d \<Rightarrow> context2d option" where
  "place_logo img logo s c =
     (let marginX = (num (width img) * margin s) / Finite 100;
          marginY = (num (height img) * margin s) / Finite 100
      in if position s = Tiled then
           (let gap = logoWidth img s * Finite (3 / 2)
            in tile_columns img logo (logoWidth img s) (logoHeight img logo s) gap
                 (aspectRatio logo) (Finite 0) c)
         else
           (let (x, y) = corner (width img) (height img) (logoWidth img s)
                           (logoHeight img logo s) marginX marginY (position s)
            in Some (drawImage5 c logo x y (logoWidth img s) (logoHeight img logo s))))"

text \<open>Lines 132 to 137.\<close>

definition reset_styles :: "context2d \<Rightarrow> context2d" where
  "reset_styles c =
     c\<lparr>globalAlpha := Finite 1, shadowColor := Transparent, shadowBlur := Finite 0,
       shadowOffsetX := Finite 0, shadowOffsetY := Finite 0\<rparr>"

text \<open>
  Lines 66 to 137: the source image is drawn under the filter the context has by then,
  the filter is set back to none, and the logo is drawn.
\<close>

definition paint_from :: "raster \<Rightarrow> raster \<Rightarrow> WatermarkSettings \<Rightarrow> context2d \<Rightarrow> context2d option" where
  "paint_from img logo s c1 =
     (let c2 = drawImage3 c1 img (Finite 0) (Finite 0);
          c3 = c2\<lparr>filter' := FilterNone\<rparr>;
          c4 = c3\<lparr>globalAlpha := opacity s / Finite 100\<rparr>;
          c5 = configure_shadow img s c4
      in map_option reset_styles (place_logo img logo s c5))"

text \<open>Lines 52 to 137: everything drawn on the canvas, whose size is the source's.\<close>

definition paint :: "raster \<Rightarrow> raster \<Rightarrow> WatermarkSettings \<Rightarrow> context2d option" where
  "paint img logo s = paint_from img logo s (apply_enhancements s fresh_context)"

text \<open>Lines 140 to 148: \<open>toBlob\<close> with the format and the quality 0.95.\<close>

definition toBlob :: "host \<Rightarrow> raster \<Rightarrow> context2d \<Rightarrow> outputFormat \<Rightarrow> number \<Rightarrow> blob option" where
  "toBlob h img c fmt q =
     (if toBlob_ok h
      then Some \<lparr>blob_width = width img, blob_height = height img, blob_calls = calls c,
                 blob_type = fmt, blob_quality = q\<rparr>
      else None)"

definition export :: "host \<Rightarrow> File \<Rightarrow> raster \<Rightarrow> WatermarkSettings \<Rightarrow> context2d \<Rightarrow> error + blob" where
  "export h imageFile img s c =
     (case toBlob h img c (outputFormat s) (literal (95 / 100)) of
        Some b \<Rightarrow> Inr b
      | None \<Rightarrow> Inl (encode_error (name imageFile)))"

text \<open>
  Lines 31 to 55: both files are read, both images are decoded, the source's dimensions
  are checked and the context is asked for.
\<close>

definition load_inputs :: "host \<Rightarrow> File \<Rightarrow> File \<Rightarrow> error + (raster \<times> raster)" where
  "load_inputs h imageFile logoFile =
     (case Promise_all (logo_read_fails_first h)
             (rethrow ''Unable to read source image: '' (readFileAsDataURL imageFile))
             (rethrow ''Unable to read logo file: '' (readFileAsDataURL logoFile)) of
        Inl e \<Rightarrow> Inl e
      | Inr (imageSrc, logoSrc) \<Rightarrow>
          (case Promise_all (logo_load_fails_first h)
                  (loadImage imageSrc (name imageFile))
                  (loadImage logoSrc (name logoFile)) of
             Inl e \<Rightarrow> Inl e
           | Inr (img, logo) \<Rightarrow>
               if MAX_DIMENSION < width img \<or> MAX_DIMENSION < height img
               then Inl (too_large_error (name imageFile) (width img) (height img))
               else if width img = 0 \<or> height img = 0
               then Inl (invalid_dimensions_error (name imageFile))
               else if \<not> getContext_ok h
               then Inl no_context_error
               else Inr (img, logo)))"

text \<open>
  The whole function. The result is \<open>None\<close> when the call never returns, \<open>Some (Inl e)\<close>
  when the promise rejects with \<open>e\<close> (the \<open>catch\<close> of line 150 logs and throws again) and
  \<open>Some (Inr b)\<close> when it resolves with the object URL of \<open>b\<close>.
\<close>

definition applyWatermarkToImage ::
  "host \<Rightarrow> File \<Rightarrow> File \<Rightarrow> WatermarkSettings \<Rightarrow> (error + blob) option" where
  "applyWatermarkToImage h imageFile logoFile s =
     (case load_inputs h imageFile logoFile of
        Inl e \<Rightarrow> Some (Inl e)
      | Inr (img, logo) \<Rightarrow>
          (case paint img logo s of
             None \<Rightarrow> None
           | Some c \<Rightarrow> Some (export h imageFile img s c)))"

text \<open>
  The calls that draw the logo at the given corners, all under one drawing state, and the
  drawing state the logo is drawn under when the source was drawn under \<open>c\<close>.
\<close>

definition logo_calls :: "context2d \<Rightarrow> raster \<Rightarrow> number \<Rightarrow> number \<Rightarrow> (number \<times> number) list \<Rightarrow> drawcall list" where
  "logo_calls c logo lw lh ps = map (\<lambda>(x, y). record_call c logo x y (Some (lw, lh))) ps"

definition logo_context :: "raster \<Rightarrow> WatermarkSettings \<Rightarrow> context2d \<Rightarrow> context2d" where
  "logo_context img s c =
     configure_shadow img s (c\<lparr>filter' := FilterNone, globalAlpha := opacity s / Finite 100\<rparr>)"

text \<open>
  Following the spec's words, for comparison: the places of a grid along one axis. They
  start at \<open>x\<close>, each next one is the one before plus the step, every one is below the
  limit, and the one after the last is not.
\<close>

fun stepping :: "number \<Rightarrow> number \<Rightarrow> number \<Rightarrow> number list \<Rightarrow> bool" where
  "stepping step limit x [] \<longleftrightarrow> \<not> x < limit"
| "stepping step limit x (p # ps) \<longleftrightarrow> x < limit \<and> p = x \<and> stepping step limit (x + step) ps"

text \<open>The grid of the columns \<open>xs\<close> and the rows \<open>ys\<close>, column after column.\<close>

definition grid :: "number list \<Rightarrow> number list \<Rightarrow> (number \<times> number) list" where
  "grid xs ys = concat (map (\<lambda>x. map (\<lambda>y. (x, y)) ys) xs)"

text \<open>
  Following the spec's words, for comparison: the same run with no colour filter set at
  all, that is, the source without its lines 62 to 64.
\<close>

definition composite_without_filter ::
  "host \<Rightarrow> File \<Rightarrow> File \<Rightarrow> WatermarkSettings \<Rightarrow> (error + blob) option" where
  "composite_without_filter h imageFile logoFile s =
     (case load_inputs h imageFile logoFile of
        Inl e \<Rightarrow> Some (Inl e)
      | Inr (img, logo) \<Rightarrow>
          (case paint_from img logo s fresh_context of
             None \<Rightarrow> None
           | Some c \<Rightarrow> Some (export h imageFile img s c)))"

section \<open>App.tsx\<close>

text \<open>Lines 28 to 38: the settings a session starts with when nothing was saved.\<close>

definition default_settings :: WatermarkSettings where
  "default_settings =
     \<lparr>opacity = Finite 80, scale = Finite 20, position = BottomRight, margin = Finite 3,
      outputFormat = ImageJpeg, shadow = False, brightness = Finite 100,
      contrast = Finite 100, saturation = Finite 100\<rparr>"

text \<open>
  A \<open>ProcessedImage\<close>. The object URL in \<open>previewUrl\<close> is represented by the blob it
  names, and the empty string an item starts with by \<open>None\<close>; \<open>errorMessage\<close> is
  \<open>None\<close> when it is undefined.
\<close>

datatype status = StatusPending | StatusProcessing | StatusDone | StatusError

record ProcessedImage =
  id' :: string
  originalFile :: File
  previewUrl :: "blob option"
  status :: status
  errorMessage :: "string option"

text \<open>Line 16: the state \<open>batchErrorResults\<close>.\<close>

record failure =
  failure_id :: string
  failure_name :: string
  failure_error :: string

record batch_report =
  total :: nat
  success :: nat
  failures :: "failure list"

text \<open>A download the browser was asked for: the delay of its timer, the link and the name.\<close>

record download =
  delay :: nat
  href :: blob
  download_name :: string

text \<open>
  The state of the component (lines 11 to 53), and the downloads it has scheduled so far.
  The state \<open>logo\<close> is the field \<open>logo'\<close>.
\<close>

record App =
  images :: "ProcessedImage list"
  logo' :: "File option"
  logoPreview :: "dataURL option"
  isProcessing :: bool
  showConfirmModal :: bool
  batchErrorResults :: "batch_report option"
  settings :: WatermarkSettings
  activePreviewId :: "string option"
  previewResult :: "blob option"
  previewError :: "string option"
  downloads :: "download list"

text \<open>\<open>!activePreviewId\<close>: null, or the empty string.\<close>

definition no_active_id :: "App \<Rightarrow> bool" where
  "no_active_id st = (case activePreviewId st of None \<Rightarrow> True | Some i \<Rightarrow> i = [])"

text \<open>
  Lines 56 to 70. \<open>uuids\<close> are the results of \<open>crypto.randomUUID()\<close>, one for each file.
\<close>

definition handleImagesSelected :: "string list \<Rightarrow> File list \<Rightarrow> App \<Rightarrow> App" where
  "handleImagesSelected uuids files st =
     (let newImages = map (\<lambda>(u, f). \<lparr>id' = u, originalFile = f, previewUrl = None,
                                       status = StatusPending, errorMessage = None\<rparr>)
                        (zip uuids files);
          st1 = st\<lparr>images := images st @ newImages\<rparr>
      in if no_active_id st \<and> newImages \<noteq> []
         then st1\<lparr>activePreviewId := Some (id' (hd newImages))\<rparr>
         else st1)"

text \<open>Lines 189 to 196.\<close>

definition removeImage :: "string \<Rightarrow> App \<Rightarrow> App" where
  "removeImage i st =
     (let st1 = st\<lparr>images := filter (\<lambda>img. id' img \<noteq> i) (images st)\<rparr>
      in if activePreviewId st = Some i
         then st1\<lparr>activePreviewId := None, previewResult := None, previewError := None\<rparr>
         else st1)"

text \<open>Lines 198 to 206.\<close>

definition resetAll :: "App \<Rightarrow> App" where
  "resetAll st =
     st\<lparr>images := [], logo' := None, logoPreview := None, activePreviewId := None,
        previewResult := None, previewError := None, batchErrorResults := None\<rparr>"

text \<open>
  Lines 123 to 129: one item of the batch. Every exception of \<open>applyWatermarkToImage\<close> is
  an \<open>Error\<close>, so the message of the item is the exception's.
\<close>

definition process_item :: "host \<Rightarrow> File \<Rightarrow> WatermarkSettings \<Rightarrow> ProcessedImage \<Rightarrow> ProcessedImage option" where
  "process_item h lg s img =
     (case applyWatermarkToImage h (originalFile img) lg s of
        None \<Rightarrow> None
      | Some (Inr url) \<Rightarrow>
          Some (img\<lparr>previewUrl := Some url, status := StatusDone, errorMessage := None\<rparr>)
      | Some (Inl e) \<Rightarrow>
          Some (img\<lparr>status := StatusError, errorMessage := Some (message e)\<rparr>))"

text \<open>
  Lines 122 to 130: \<open>Promise.all\<close> over the items, in their order. No item's promise
  rejects; the whole is \<open>None\<close> when a call does not return. \<open>hosts\<close> gives what the host
  decides during the call for each item.
\<close>

definition process_all ::
  "(ProcessedImage \<Rightarrow> host) \<Rightarrow> File \<Rightarrow> WatermarkSettings \<Rightarrow> ProcessedImage list \<Rightarrow> ProcessedImage list option" where
  "process_all hosts lg s imgs = those (map (\<lambda>img. process_item (hosts img) lg s img) imgs)"

text \<open>Lines 136 to 142; \<open>img.errorMessage || "Unknown Error"\<close> also replaces an empty message.\<close>

definition failures_of :: "ProcessedImage list \<Rightarrow> failure list" where
  "failures_of processed =
     map (\<lambda>img. \<lparr>failure_id = id' img, failure_name = name (originalFile img),
                  failure_error = (case errorMessage img of
                                     Some m \<Rightarrow> if m \<noteq> [] then m else ''Unknown Error''
                                   | None \<Rightarrow> ''Unknown Error'')\<rparr>)
       (filter (\<lambda>img. status img = StatusError) processed)"

text \<open>The string methods of line 167.\<close>

fun lastIndexOf :: "string \<Rightarrow> char \<Rightarrow> int" where
  "lastIndexOf [] ch = - 1"
| "lastIndexOf (c # cs) ch =
     (let r = lastIndexOf cs ch
      in if 0 \<le> r then r + 1 else if c = ch then 0 else - 1)"

definition substring :: "string \<Rightarrow> int \<Rightarrow> int \<Rightarrow> string" where
  "substring s start end' =
     (let len = int (length s);
          a = max 0 (min start len);
          b = max 0 (min end' len);
          lo = min a b;
          hi = max a b
      in take (nat (hi - lo)) (drop (nat lo) s))"

text \<open>Lines 161 to 168: the name of the downloaded file.\<close>

definition download_filename :: "WatermarkSettings \<Rightarrow> string \<Rightarrow> string" where
  "download_filename s fileName =
     (let ext = (if outputFormat s = ImagePng then ''png''
                 else if outputFormat s = ImageWebp then ''webp''
                 else ''jpg'');
          stripped = substring fileName 0 (lastIndexOf fileName (CHR ''.''));
          originalName = (if stripped \<noteq> [] then stripped else fileName)
      in ''watermarked-'' @ originalName @ ''.'' @ ext)"

text \<open>Lines 155 to 175: one timer for each item that is done and has its URL.\<close>

definition schedule_downloads :: "WatermarkSettings \<Rightarrow> ProcessedImage list \<Rightarrow> download list" where
  "schedule_downloads s processed =
     concat (map (\<lambda>(index, img).
                 (case previewUrl img of
                    Some url \<Rightarrow>
                      if status img = StatusDone
                      then [\<lparr>delay = index * 200, href = url,
                             download_name = download_filename s (name (originalFile img))\<rparr>]
                      else []
                  | None \<Rightarrow> []))
            (zip [0..<length processed] processed))"

text \<open>Lines 117 to 119: what the run sets before it waits.\<close>

definition batch_start :: "App \<Rightarrow> App" where
  "batch_start st = st\<lparr>showConfirmModal := False, batchErrorResults := None, isProcessing := True\<rparr>"

text \<open>
  Lines 132 to 175: what the run sets when every item has settled. \<open>s\<close> is the \<open>settings\<close>
  the run started with.
\<close>

definition batch_finish :: "WatermarkSettings \<Rightarrow> ProcessedImage list \<Rightarrow> App \<Rightarrow> App" where
  "batch_finish s processed st =
     (let st1 = st\<lparr>images := processed, isProcessing := False\<rparr>;
          fs = failures_of processed;
          successCount = length processed - length fs;
          st2 = (if 0 < length fs
                 then st1\<lparr>batchErrorResults :=
                        Some \<lparr>total = length processed, success = successCount, failures = fs\<rparr>\<rparr>
                 else st1)
      in st2\<lparr>downloads := downloads st2 @ schedule_downloads s processed\<rparr>)"

text \<open>
  Lines 114 to 176, with nothing else happening while the run waits: nothing when there is
  no logo or no image, else the start, the items and the finish.
\<close>

definition executeBatchProcessing :: "(ProcessedImage \<Rightarrow> host) \<Rightarrow> App \<Rightarrow> App option" where
  "executeBatchProcessing hosts st =
     (case logo' st of
        None \<Rightarrow> Some st
      | Some lg \<Rightarrow>
          if images st = [] then Some st
          else map_option (\<lambda>processed. batch_finish (settings st) processed (batch_start st))
                 (process_all hosts lg (settings st) (images st)))"

subsection \<open>The component as a state machine\<close>

text \<open>
  A run that has started and waits at line 122 for its items: the logo, the settings and
  the images it read when it started.
\<close>

record batch_job =
  job_logo :: File
  job_settings :: WatermarkSettings
  job_images :: "ProcessedImage list"

text \<open>
  What can happen to the component, one event at a time. Its state is the component's
  state and the runs that wait. Only four handlers set \<open>images\<close>: the selection of files,
  whose new identifiers are not those of an item already there, the removal of an item,
  the reset, and the run, which sets them when it finishes. The start of a run leaves them
  as they are, and so does every other handler (the last rule).
\<close>

inductive step :: "(ProcessedImage \<Rightarrow> host) \<Rightarrow> App \<times> batch_job list \<Rightarrow> App \<times> batch_job list \<Rightarrow> bool"
  for hosts :: "ProcessedImage \<Rightarrow> host" where
  select: "distinct uuids \<Longrightarrow> set uuids \<inter> id' ` set (images st) = {} \<Longrightarrow>
     step hosts (st, jobs) (handleImagesSelected uuids files st, jobs)"
| remove: "step hosts (st, jobs) (removeImage i st, jobs)"
| reset: "step hosts (st, jobs) (resetAll st, jobs)"
| start: "logo' st = Some lg \<Longrightarrow> images st \<noteq> [] \<Longrightarrow>
     step hosts (st, jobs)
       (batch_start st,
        jobs @ [\<lparr>job_logo = lg, job_settings = settings st, job_images = images st\<rparr>])"
| finish: "job \<in> set jobs \<Longrightarrow>
     process_all hosts (job_logo job) (job_settings job) (job_images job) = Some processed \<Longrightarrow>
     step hosts (st, jobs) (batch_finish (job_settings job) processed st, remove1 job jobs)"
| other: "images st' = images st \<Longrightarrow> step hosts (st, jobs) (st', jobs)"



section \<open>Concrete inputs\<close>

text \<open>Inputs that the closed theorems below evaluate the program on.\<close>

definition example_host :: host where
  "example_host =
     \<lparr>logo_read_fails_first = False, logo_load_fails_first = False,
      getContext_ok = True, toBlob_ok = True\<rparr>"

definition example_photo :: File where
  "example_photo =
     \<lparr>name = ''a.png'', readable = True,
      contents = DataURL (Some \<lparr>width = 400, height = 300, pixels = 1\<rparr>)\<rparr>"

definition example_logo :: File where
  "example_logo =
     \<lparr>name = ''logo.png'', readable = True,
      contents = DataURL (Some \<lparr>width = 100, height = 50, pixels = 2\<rparr>)\<rparr>"

definition tall_empty_photo :: File where
  "tall_empty_photo =
     \<lparr>name = ''tall.png'', readable = True,
      contents = DataURL (Some \<lparr>width = 0, height = 20000, pixels = 3\<rparr>)\<rparr>"

definition empty_logo :: File where
  "empty_logo =
     \<lparr>name = ''empty.svg'', readable = True,
      contents = DataURL (Some \<lparr>width = 0, height = 50, pixels = 4\<rparr>)\<rparr>"






text \<open>What the call on the example photo and logo with the default settings resolves with.\<close>

definition example_blob :: blob where
  "example_blob =
     \<lparr>blob_width = 400, blob_height = 300,
    blob_calls = [
      \<lparr>image = \<lparr>width = 400, height = 300, pixels = 1\<rparr>, dx = Finite 0, dy = Finite 0, dsize = None,
        with_filter = FilterNone, with_alpha = Finite 1, with_shadowColor = Transparent,
        with_shadowBlur = Finite 0, with_shadowOffsetX = Finite 0, with_shadowOffsetY = Finite 0\<rparr>,
      \<lparr>image = \<lparr>width = 100, height = 50, pixels = 2\<rparr>, dx = Finite 308, dy = Finite 251,
        dsize = Some (Finite 80, Finite 40),
        with_filter = FilterNone, with_alpha = Finite 80 / Finite 100, with_shadowColor = Transparent,
        with_shadowBlur = Finite 0, with_shadowOffsetX = Finite 0, with_shadowOffsetY = Finite 0\<rparr>],
    blob_type = ImageJpeg, blob_quality = literal (95 / 100)\<rparr>"

definition broken_photo :: File where
  "broken_photo =
     \<lparr>name = ''broken.png'', readable = False, contents = DataURL None\<rparr>"

definition broken_photo_error :: error where
  \<open>broken_photo_error =
     Error ''Unable to read source image: Failed to read file: "broken.png". It may be locked or corrupted.''\<close>

definition initial_app :: App where
  "initial_app =
     \<lparr>images = [], logo' = None, logoPreview = None, isProcessing = False,
      showConfirmModal = False, batchErrorResults = None, settings = default_settings,
      activePreviewId = None, previewResult = None, previewError = None, downloads = []\<rparr>"

definition example_item :: "string \<Rightarrow> File \<Rightarrow> ProcessedImage" where
  "example_item u f =
     \<lparr>id' = u, originalFile = f, previewUrl = None, status = StatusPending, errorMessage = None\<rparr>"

definition example_app :: App where
  "example_app =
     handleImagesSelected [''id-1'', ''id-2'', ''id-3''] [example_photo, broken_photo, example_photo]
       (initial_app\<lparr>logo' := Some example_logo\<rparr>)"



section \<open>Lemmas about the compositor\<close>

lemma load_inputs_decoded:
  assumes "readable imageFile" "readable logoFile"
    and "decodes_to (contents imageFile) = Some img"
    and "decodes_to (contents logoFile) = Some logo"
  shows "load_inputs h imageFile logoFile =
     (if MAX_DIMENSION < width img \<or> MAX_DIMENSION < height img
      then Inl (too_large_error (name imageFile) (width img) (height img))
      else if width img = 0 \<or> height img = 0
      then Inl (invalid_dimensions_error (name imageFile))
      else if \<not> getContext_ok h then Inl no_context_error
      else Inr (img, logo))"
  using assms
  by (simp add: load_inputs_def Promise_all_def rethrow_def readFileAsDataURL_def loadImage_def)

lemma record_call_calls [simp]: "record_call (c\<lparr>calls := cs\<rparr>) = record_call c"
  by (simp add: record_call_def fun_eq_iff)

lemma logo_calls_append: "logo_calls c logo lw lh (ps @ qs) = logo_calls c logo lw lh ps @ logo_calls c logo lw lh qs"
  by (simp add: logo_calls_def)

lemma logo_calls_calls [simp]: "logo_calls (c\<lparr>calls := cs\<rparr>) = logo_calls c"
  by (simp add: logo_calls_def fun_eq_iff)

lemma logo_calls_filter: "d \<in> set (logo_calls c logo lw lh ps) \<Longrightarrow> with_filter d = filter' c"
  by (auto simp: logo_calls_def record_call_def)

lemma filter_logo_context [simp]: "filter' (logo_context img s c) = FilterNone"
  by (simp add: logo_context_def configure_shadow_def Let_def)

text \<open>
  The places along one axis are determined by the start, the step and the limit, and there
  are none when the start is below the limit and the step does not advance. The loops of
  the tiled placement return exactly when such places exist; they leave the drawing state
  untouched and add one logo call at each point of the grid.
\<close>

lemma stepping_unique: "stepping s l x ps \<Longrightarrow> stepping s l x qs \<Longrightarrow> ps = qs"
proof (induction ps arbitrary: x qs)
  case Nil
  then show ?case by (cases qs) simp_all
next
  case (Cons p ps)
  then show ?case by (cases qs) auto
qed



lemma grid_Cons: "grid (x # xs) ys = map (Pair x) ys @ grid xs ys"
  by (simp add: grid_def)

lemma grid_Nil [simp]: "grid [] ys = []"
  by (simp add: grid_def)


lemma tile_rows_stepping:
  assumes "tile_rows img logo lw lh gap ar x y c = Some c'"
  shows "\<exists>rows. stepping (gap * ar) (num (height img)) y rows
           \<and> c' = c\<lparr>calls := calls c @ logo_calls c logo lw lh (map (Pair x) rows)\<rparr>"
proof -
  let ?P = "\<lambda>(img::raster) logo lw lh (gap::number) (ar::number) (x::number) (y::number) c c'.
              \<exists>rows. stepping (gap * ar) (num (height img)) y rows
                \<and> c' = c\<lparr>calls := calls c @ logo_calls c logo lw lh (map (Pair x) rows)\<rparr>"
  have "?P img logo lw lh gap ar x y c c'"
  proof (rule tile_rows.raw_induct [where P = ?P and xa = "((((((((img, logo), lw), lh), gap), ar), x), y), c)" and ya = c', simplified], goal_cases)
    case (1 f img logo lw lh gap ar x y c c')
    show ?case
    proof (cases "y < num (height img)")
      case True
      with 1(2) have "f img logo lw lh gap ar x (y + gap * ar) (drawImage5 c logo x y lw lh) = Some c'"
        by simp
      from 1(1) [OF this] obtain rows where
        s: "stepping (gap * ar) (num (height img)) (y + gap * ar) rows"
        and "c' = (drawImage5 c logo x y lw lh)\<lparr>calls := calls (drawImage5 c logo x y lw lh)
               @ logo_calls (drawImage5 c logo x y lw lh) logo lw lh (map (Pair x) rows)\<rparr>"
        by blast
      then have "c' = c\<lparr>calls := calls c @ logo_calls c logo lw lh (map (Pair x) (y # rows))\<rparr>"
        by (simp add: drawImage5_def logo_calls_def)
      moreover have "stepping (gap * ar) (num (height img)) y (y # rows)"
        using True s by simp
      ultimately show ?thesis by blast
    next
      case False
      with 1 have "c' = c\<lparr>calls := calls c @ logo_calls c logo lw lh (map (Pair x) [])\<rparr>"
        by (simp add: logo_calls_def)
      moreover have "stepping (gap * ar) (num (height img)) y []"
        using False by simp
      ultimately show ?thesis by blast
    qed
  next
    case 2
    show ?case using assms by simp
  qed
  then show ?thesis .
qed


lemma tile_columns_stepping:
  assumes "tile_columns img logo lw lh gap ar x c = Some c'"
  shows "\<exists>cols rows. stepping gap (num (width img)) x cols
           \<and> (cols \<noteq> [] \<longrightarrow> stepping (gap * ar) (num (height img)) (Finite 0) rows)
           \<and> c' = c\<lparr>calls := calls c @ logo_calls c logo lw lh (grid cols rows)\<rparr>"
proof -
  define P where "P = (\<lambda>(img::raster) logo lw lh (gap::number) (ar::number) (x::number) c c'.
              \<exists>cols rows. stepping gap (num (width img)) x cols
                \<and> (cols \<noteq> [] \<longrightarrow> stepping (gap * ar) (num (height img)) (Finite 0) rows)
                \<and> c' = c\<lparr>calls := calls c @ logo_calls c logo lw lh (grid cols rows)\<rparr>)"
  have "P img logo lw lh gap ar x c c'"
  proof (rule tile_columns.raw_induct [where P = P and xa = "(((((((img, logo), lw), lh), gap), ar), x), c)" and y = c', simplified], goal_cases)
    case (1 f img logo lw lh gap ar x c c')
    show ?case
    proof (cases "x < num (width img)")
      case True
      with 1(2) obtain c1 where r: "tile_rows img logo lw lh gap ar x (Finite 0) c = Some c1"
        and f: "f img logo lw lh gap ar (x + gap) c1 = Some c'"
        by (auto simp: bind_eq_Some_conv)
      from tile_rows_stepping [OF r] obtain rows where
        rs: "stepping (gap * ar) (num (height img)) (Finite 0) rows"
        and c1: "c1 = c\<lparr>calls := calls c @ logo_calls c logo lw lh (map (Pair x) rows)\<rparr>"
        by blast
      from 1(1) [OF f, unfolded P_def] obtain cols rows' where
        cs: "stepping gap (num (width img)) (x + gap) cols"
        and rs': "cols \<noteq> [] \<longrightarrow> stepping (gap * ar) (num (height img)) (Finite 0) rows'"
        and c': "c' = c1\<lparr>calls := calls c1 @ logo_calls c1 logo lw lh (grid cols rows')\<rparr>"
        by blast
      have g: "grid cols rows' = grid cols rows"
      proof (cases "cols = []")
        case True
        then show ?thesis by simp
      next
        case False
        with rs' rs have "rows' = rows" by (blast intro: stepping_unique)
        then show ?thesis by simp
      qed
      have "c' = c\<lparr>calls := calls c @ logo_calls c logo lw lh (grid (x # cols) rows)\<rparr>"
        by (simp add: c' c1 g grid_Cons logo_calls_append)
      moreover have "stepping gap (num (width img)) x (x # cols)"
        using True cs by simp
      ultimately show ?thesis unfolding P_def using rs by blast
    next
      case False
      with 1 have "c' = c\<lparr>calls := calls c @ logo_calls c logo lw lh (grid [] [])\<rparr>"
        by (simp add: logo_calls_def)
      moreover have "stepping gap (num (width img)) x []"
        using False by simp
      ultimately show ?thesis unfolding P_def by blast
    qed
  next
    case 2
    show ?case using assms by simp
  qed
  then show ?thesis unfolding P_def .
qed

lemma place_logo_partial:
  assumes "place_logo img logo s c = Some c'"
  shows "\<exists>ps. c' = c\<lparr>calls := calls c @ logo_calls c logo (logoWidth img s) (logoHeight img logo s) ps\<rparr>"
proof (cases "position s = Tiled")
  case True
  with assms show ?thesis
    by (auto simp: place_logo_def Let_def dest!: tile_columns_stepping)
next
  case False
  obtain x y where xy: "corner (width img) (height img) (logoWidth img s) (logoHeight img logo s)
      ((num (width img) * margin s) / Finite 100) ((num (height img) * margin s) / Finite 100)
      (position s) = (x, y)"
    by (cases "corner (width img) (height img) (logoWidth img s) (logoHeight img logo s)
      ((num (width img) * margin s) / Finite 100) ((num (height img) * margin s) / Finite 100)
      (position s)") blast
  with assms False have "c' = c\<lparr>calls := calls c @ logo_calls c logo (logoWidth img s) (logoHeight img logo s) [(x, y)]\<rparr>"
    by (auto simp: place_logo_def Let_def drawImage5_def logo_calls_def)
  then show ?thesis by blast
qed

lemma paint_from_partial:
  assumes "paint_from img logo s c = Some c'"
  shows "\<exists>ps. calls c' = calls c @ record_call c img (Finite 0) (Finite 0) None
            # logo_calls (logo_context img s c) logo (logoWidth img s) (logoHeight img logo s) ps"
proof -
  let ?c5 = "configure_shadow img s
      (drawImage3 c img (Finite 0) (Finite 0)\<lparr>filter' := FilterNone, globalAlpha := opacity s / Finite 100\<rparr>)"
  from assms obtain c6 where p: "place_logo img logo s ?c5 = Some c6" and c': "c' = reset_styles c6"
    by (auto simp: paint_from_def Let_def)
  from place_logo_partial [OF p] obtain ps where
    c6: "c6 = ?c5\<lparr>calls := calls ?c5 @ logo_calls ?c5 logo (logoWidth img s) (logoHeight img logo s) ps\<rparr>"
    by blast
  have a: "calls ?c5 = calls c @ [record_call c img (Finite 0) (Finite 0) None]"
    by (simp add: configure_shadow_def drawImage3_def Let_def)
  have b: "logo_calls ?c5 = logo_calls (logo_context img s c)"
    by (simp add: logo_calls_def record_call_def logo_context_def configure_shadow_def drawImage3_def Let_def fun_eq_iff)
  have "calls c' = calls c6" by (simp add: c' reset_styles_def)
  also have "\<dots> = calls ?c5 @ logo_calls ?c5 logo (logoWidth img s) (logoHeight img logo s) ps"
    by (subst c6) simp
  finally have "calls c' = calls c @ record_call c img (Finite 0) (Finite 0) None
            # logo_calls (logo_context img s c) logo (logoWidth img s) (logoHeight img logo s) ps"
    by (simp add: a b)
  then show ?thesis by blast
qed





lemma paint_from_non_tiled:
  assumes "position s \<noteq> Tiled"
  shows "\<exists>c0 c1 c'. paint_from img logo s c = Some c' \<and> calls c' = calls c @ [c0, c1]
     \<and> c0 = record_call c img (Finite 0) (Finite 0) None
     \<and> image c1 = logo \<and> with_filter c1 = FilterNone
     \<and> with_alpha c1 = opacity s / Finite 100
     \<and> dsize c1 = Some (logoWidth img s, logoHeight img logo s)
     \<and> (dx c1, dy c1) = corner (width img) (height img) (logoWidth img s) (logoHeight img logo s)
          ((num (width img) * margin s) / Finite 100) ((num (height img) * margin s) / Finite 100)
          (position s)"
  using assms
  by (simp add: paint_from_def place_logo_def Let_def drawImage3_def drawImage5_def
      record_call_def reset_styles_def configure_shadow_def split: prod.splits)

lemma applyWatermarkToImage_non_tiled:
  assumes "readable imageFile" "readable logoFile"
    and "decodes_to (contents imageFile) = Some img"
    and "decodes_to (contents logoFile) = Some logo"
    and "0 < width img" "width img \<le> 16384" "0 < height img" "height img \<le> 16384"
    and "getContext_ok h" "toBlob_ok h"
    and "position s \<noteq> Tiled"
  shows "\<exists>b source_call logo_call.
     applyWatermarkToImage h imageFile logoFile s = Some (Inr b)
     \<and> blob_calls b = [source_call, logo_call]
     \<and> image source_call = img \<and> dsize source_call = None
     \<and> image logo_call = logo
     \<and> dsize logo_call = Some (logoWidth img s, logoHeight img logo s)
     \<and> (dx logo_call, dy logo_call) =
         corner (width img) (height img) (logoWidth img s) (logoHeight img logo s)
           ((num (width img) * margin s) / Finite 100) ((num (height img) * margin s) / Finite 100)
           (position s)"
proof -
  have li: "load_inputs h imageFile logoFile = Inr (img, logo)"
    using assms by (simp add: load_inputs_decoded [of imageFile logoFile img logo] MAX_DIMENSION_def)
  have e: "calls (apply_enhancements s fresh_context) = []"
    by (simp add: apply_enhancements_def fresh_context_def)
  obtain c0 c1 c' where p: "paint img logo s = Some c'"
    and cs0: "calls c' = calls (apply_enhancements s fresh_context) @ [c0, c1]"
    and c0: "c0 = record_call (apply_enhancements s fresh_context) img (Finite 0) (Finite 0) None"
    and c1: "image c1 = logo" "dsize c1 = Some (logoWidth img s, logoHeight img logo s)"
      "(dx c1, dy c1) = corner (width img) (height img) (logoWidth img s) (logoHeight img logo s)
          ((num (width img) * margin s) / Finite 100) ((num (height img) * margin s) / Finite 100)
          (position s)"
    using paint_from_non_tiled [OF \<open>position s \<noteq> Tiled\<close>, of img logo "apply_enhancements s fresh_context"]
    unfolding paint_def by blast
  have cs: "calls c' = [c0, c1]"
    using cs0 e by simp
  let ?b = "\<lparr>blob_width = width img, blob_height = height img, blob_calls = calls c',
            blob_type = outputFormat s, blob_quality = literal (95 / 100)\<rparr>"
  have r: "applyWatermarkToImage h imageFile logoFile s = Some (Inr ?b)"
    using li p \<open>toBlob_ok h\<close> by (simp add: applyWatermarkToImage_def export_def toBlob_def)
  have "image c0 = img" "dsize c0 = None"
    by (simp_all add: c0 record_call_def)
  with r cs c1 show ?thesis
    by (intro exI [of _ ?b] exI [of _ c0] exI [of _ c1]) simp
qed

lemma round_double_values:
  "round_double 8000 = Finite 8000" "round_double 80 = Finite 80"
  "round_double (1 / 2) = Finite (1 / 2)" "round_double 40 = Finite 40"
  "round_double 1200 = Finite 1200" "round_double 12 = Finite 12"
  "round_double 900 = Finite 900" "round_double 9 = Finite 9"
  "round_double 320 = Finite 320" "round_double 308 = Finite 308"
  "round_double 260 = Finite 260" "round_double 251 = Finite 251"
  by code_simp+

lemma example_result: "applyWatermarkToImage example_host example_photo example_logo default_settings = Some (Inr example_blob)"
  by (simp add: applyWatermarkToImage_def load_inputs_def Promise_all_def rethrow_def
      readFileAsDataURL_def loadImage_def example_photo_def example_logo_def example_host_def
      MAX_DIMENSION_def default_settings_def paint_def paint_from_def place_logo_def Let_def
      apply_enhancements_def strict_neq_def fresh_context_def drawImage3_def drawImage5_def
      record_call_def configure_shadow_def corner_def logoWidth_def logoHeight_def aspectRatio_def
      num_def minus_number_def reset_styles_def export_def toBlob_def example_blob_def
      round_double_values)

lemma less_num_iff: "Finite y < num n \<longleftrightarrow> y < of_nat n"
  by (simp add: num_def)


lemma zero_width_aspectRatio:
  "width logo = 0 \<Longrightarrow> aspectRatio logo = (if height logo = 0 then NaN else PosInf)"
  by (simp add: aspectRatio_def num_def)

lemma times_not_finite: "\<not> is_finite y \<Longrightarrow> \<not> is_finite (x * y)"
  by (cases x; cases y) (simp_all add: is_finite_def)

section \<open>Placement of the logo\<close>

text \<open>
  Claim C2. For a position that is not tiled, a call that reaches the canvas draws the
  source once and then the logo exactly once, \<open>dw = W * scale / 100\<close> wide and
  \<open>dh = dw * (lh / lw)\<close> high, with its top-left corner where the claim says for each of
  the five positions.
\<close>

theorem non_tiled_placement:
  assumes "readable imageFile" "readable logoFile"
    and "decodes_to (contents imageFile) = Some img"
    and "decodes_to (contents logoFile) = Some logo"
    and "0 < width img" "width img \<le> 16384" "0 < height img" "height img \<le> 16384"
    and "getContext_ok h" "toBlob_ok h"
    and "position s \<noteq> Tiled"
    and "W = num (width img)" "H = num (height img)" "m = margin s"
    and "dw = W * scale s / Finite 100"
    and "dh = dw * (num (height logo) / num (width logo))"
  shows "\<exists>b source_call logo_call.
     applyWatermarkToImage h imageFile logoFile s = Some (Inr b)
     \<and> blob_calls b = [source_call, logo_call]
     \<and> image source_call = img \<and> dsize source_call = None
     \<and> image logo_call = logo \<and> dsize logo_call = Some (dw, dh)
     \<and> (dx logo_call, dy logo_call) =
         (case position s of
            TopLeft \<Rightarrow> (W * m / Finite 100, H * m / Finite 100)
          | TopRight \<Rightarrow> (W - dw - W * m / Finite 100, H * m / Finite 100)
          | BottomLeft \<Rightarrow> (W * m / Finite 100, H - dh - H * m / Finite 100)
          | BottomRight \<Rightarrow> (W - dw - W * m / Finite 100, H - dh - H * m / Finite 100)
          | Center \<Rightarrow> ((W - dw) / Finite 2, (H - dh) / Finite 2)
          | Tiled \<Rightarrow> (dx logo_call, dy logo_call))"
proof -
  from applyWatermarkToImage_non_tiled [OF assms(1-11)]
  obtain b c0 c1 where r: "applyWatermarkToImage h imageFile logoFile s = Some (Inr b)"
    and cs: "blob_calls b = [c0, c1]"
    and c0: "image c0 = img" "dsize c0 = None"
    and c1: "image c1 = logo" "dsize c1 = Some (logoWidth img s, logoHeight img logo s)"
      "(dx c1, dy c1) = corner (width img) (height img) (logoWidth img s) (logoHeight img logo s)
          ((num (width img) * margin s) / Finite 100) ((num (height img) * margin s) / Finite 100)
          (position s)"
    by blast
  have sz: "dsize c1 = Some (dw, dh)"
    using c1(2) assms(12-16) by (simp add: logoWidth_def logoHeight_def aspectRatio_def)
  have pos: "(dx c1, dy c1) =
         (case position s of
            TopLeft \<Rightarrow> (W * m / Finite 100, H * m / Finite 100)
          | TopRight \<Rightarrow> (W - dw - W * m / Finite 100, H * m / Finite 100)
          | BottomLeft \<Rightarrow> (W * m / Finite 100, H - dh - H * m / Finite 100)
          | BottomRight \<Rightarrow> (W - dw - W * m / Finite 100, H - dh - H * m / Finite 100)
          | Center \<Rightarrow> ((W - dw) / Finite 2, (H - dh) / Finite 2)
          | Tiled \<Rightarrow> (dx c1, dy c1))"
    unfolding c1(3) using assms(12-16)
    by (simp add: corner_def logoWidth_def logoHeight_def aspectRatio_def split: position.splits)
  from r cs c0 c1(1) sz pos show ?thesis
    by (intro exI [of _ b] exI [of _ c0] exI [of _ c1]) simp
qed

theorem non_tiled_placement_witness:
  "readable example_photo \<and> readable example_logo
   \<and> position default_settings = BottomRight
   \<and> (\<exists>b source_call logo_call.
     applyWatermarkToImage example_host example_photo example_logo default_settings = Some (Inr b)
     \<and> blob_calls b = [source_call, logo_call]
     \<and> dsize logo_call = Some (Finite 80, Finite 40)
     \<and> (dx logo_call, dy logo_call) = (Finite 308, Finite 251))"
proof -
  have "\<exists>b source_call logo_call.
     applyWatermarkToImage example_host example_photo example_logo default_settings = Some (Inr b)
     \<and> blob_calls b = [source_call, logo_call]
     \<and> image source_call = \<lparr>width = 400, height = 300, pixels = 1\<rparr> \<and> dsize source_call = None
     \<and> image logo_call = \<lparr>width = 100, height = 50, pixels = 2\<rparr>
     \<and> dsize logo_call = Some (Finite 80, Finite 40)
     \<and> (dx logo_call, dy logo_call) =
         (case position default_settings of
            TopLeft \<Rightarrow> (Finite 400 * Finite 3 / Finite 100, Finite 300 * Finite 3 / Finite 100)
          | TopRight \<Rightarrow> (Finite 400 - Finite 80 - Finite 400 * Finite 3 / Finite 100, Finite 300 * Finite 3 / Finite 100)
          | BottomLeft \<Rightarrow> (Finite 400 * Finite 3 / Finite 100, Finite 300 - Finite 40 - Finite 300 * Finite 3 / Finite 100)
          | BottomRight \<Rightarrow> (Finite 400 - Finite 80 - Finite 400 * Finite 3 / Finite 100, Finite 300 - Finite 40 - Finite 300 * Finite 3 / Finite 100)
          | Center \<Rightarrow> ((Finite 400 - Finite 80) / Finite 2, (Finite 300 - Finite 40) / Finite 2)
          | Tiled \<Rightarrow> (dx logo_call, dy logo_call))"
    by (rule non_tiled_placement [of example_photo example_logo
          "\<lparr>width = 400, height = 300, pixels = 1\<rparr>" "\<lparr>width = 100, height = 50, pixels = 2\<rparr>"
          example_host default_settings "Finite 400" "Finite 300" "Finite 3" "Finite 80" "Finite 40"])
       (simp_all add: example_photo_def example_logo_def example_host_def default_settings_def
          num_def round_double_values)
  then show ?thesis
    by (simp add: example_photo_def example_logo_def default_settings_def minus_number_def
        round_double_values) blast
qed




section \<open>The enhancement filter\<close>

text \<open>
  Claim C7. With brightness, contrast and saturation all 100 the call gives what the same
  run without any filter gives. In every call that resolves, the source is drawn under the
  combined filter exactly when one of the three is not 100, and every logo call is made
  with the filter set back to none.
\<close>

theorem enhancements_only_on_source:
  "(brightness s = Finite 100 \<and> contrast s = Finite 100 \<and> saturation s = Finite 100 \<longrightarrow>
      applyWatermarkToImage h imageFile logoFile s = composite_without_filter h imageFile logoFile s)
   \<and> (applyWatermarkToImage h imageFile logoFile s = Some (Inr b) \<longrightarrow>
        (\<exists>source_call logo_calls. blob_calls b = source_call # logo_calls
           \<and> dsize source_call = None
           \<and> with_filter source_call =
               (if strict_neq (brightness s) (Finite 100) \<or> strict_neq (contrast s) (Finite 100)
                   \<or> strict_neq (saturation s) (Finite 100)
                then FilterAdjust (brightness s) (contrast s) (saturation s) else FilterNone)
           \<and> (\<forall>d \<in> set logo_calls. with_filter d = FilterNone)))"
proof (intro conjI impI)
  assume "brightness s = Finite 100 \<and> contrast s = Finite 100 \<and> saturation s = Finite 100"
  then have eq: "apply_enhancements s fresh_context = fresh_context"
    by (simp add: apply_enhancements_def strict_neq_def)
  show "applyWatermarkToImage h imageFile logoFile s = composite_without_filter h imageFile logoFile s"
    unfolding applyWatermarkToImage_def composite_without_filter_def paint_def eq by (rule refl)
next
  assume r: "applyWatermarkToImage h imageFile logoFile s = Some (Inr b)"
  then obtain img logo c where p: "paint img logo s = Some c"
    and e: "export h imageFile img s c = Inr b"
    by (auto simp: applyWatermarkToImage_def split: sum.splits option.splits)
  from e have b: "blob_calls b = calls c"
    by (auto simp: export_def toBlob_def split: if_splits)
  let ?c1 = "apply_enhancements s fresh_context"
  from paint_from_partial [OF p [unfolded paint_def]] obtain ps where
    cs: "calls c = calls ?c1 @ record_call ?c1 img (Finite 0) (Finite 0) None
            # logo_calls (logo_context img s ?c1) logo (logoWidth img s) (logoHeight img logo s) ps"
    by blast
  have e: "calls ?c1 = []"
    by (simp add: apply_enhancements_def fresh_context_def)
  let ?src = "record_call ?c1 img (Finite 0) (Finite 0) None"
  let ?rest = "logo_calls (logo_context img s ?c1) logo (logoWidth img s) (logoHeight img logo s) ps"
  have 1: "blob_calls b = ?src # ?rest" using b cs e by simp
  have 2: "dsize ?src = None" by (simp add: record_call_def)
  have 3: "with_filter ?src =
               (if strict_neq (brightness s) (Finite 100) \<or> strict_neq (contrast s) (Finite 100)
                   \<or> strict_neq (saturation s) (Finite 100)
                then FilterAdjust (brightness s) (contrast s) (saturation s) else FilterNone)"
    by (simp add: record_call_def apply_enhancements_def fresh_context_def)
  have 4: "\<forall>d \<in> set ?rest. with_filter d = FilterNone"
    using logo_calls_filter [of _ "logo_context img s ?c1"] by simp
  from 1 2 3 4 show "\<exists>source_call logo_calls. blob_calls b = source_call # logo_calls
           \<and> dsize source_call = None
           \<and> with_filter source_call =
               (if strict_neq (brightness s) (Finite 100) \<or> strict_neq (contrast s) (Finite 100)
                   \<or> strict_neq (saturation s) (Finite 100)
                then FilterAdjust (brightness s) (contrast s) (saturation s) else FilterNone)
           \<and> (\<forall>d \<in> set logo_calls. with_filter d = FilterNone)"
    by blast
qed

theorem enhancements_only_on_source_witness:
  "brightness default_settings = Finite 100 \<and> contrast default_settings = Finite 100
   \<and> saturation default_settings = Finite 100
   \<and> applyWatermarkToImage example_host example_photo example_logo default_settings
       = Some (Inr example_blob)
   \<and> composite_without_filter example_host example_photo example_logo default_settings
       = Some (Inr example_blob)
   \<and> map with_filter (blob_calls example_blob) = [FilterNone, FilterNone]"
  using enhancements_only_on_source [of default_settings example_host example_photo example_logo example_blob]
    example_result
  by (simp add: default_settings_def example_blob_def)

section \<open>The source's dimension checks\<close>

text \<open>
  Claim C3, as amended. When both files are read and decoded, a source with an axis above
  16384 px is rejected with the too-large error, whose message holds the attempted
  dimensions; a source with an axis of 0 is rejected with the invalid-dimensions error
  when neither axis is above 16384 px (the size check comes first). Both are rejections
  the caller receives as values: the call returns.
\<close>

theorem source_dimension_errors:
  assumes "readable imageFile" "readable logoFile"
    and "decodes_to (contents imageFile) = Some img"
    and "decodes_to (contents logoFile) = Some logo"
  shows "(16384 < width img \<or> 16384 < height img \<longrightarrow>
            applyWatermarkToImage h imageFile logoFile s
              = Some (Inl (too_large_error (name imageFile) (width img) (height img))))
       \<and> (width img \<le> 16384 \<and> height img \<le> 16384 \<and> (width img = 0 \<or> height img = 0) \<longrightarrow>
            applyWatermarkToImage h imageFile logoFile s
              = Some (Inl (invalid_dimensions_error (name imageFile))))
       \<and> (\<exists>pre post. message (too_large_error (name imageFile) (width img) (height img))
              = pre @ show_nat (width img) @ ''x'' @ show_nat (height img) @ post)"
proof -
  have "\<exists>pre post. message (too_large_error (name imageFile) (width img) (height img))
              = pre @ show_nat (width img) @ ''x'' @ show_nat (height img) @ post"
    unfolding too_large_error_def error.sel
    by (metis append.assoc)
  then show ?thesis
    by (simp add: applyWatermarkToImage_def load_inputs_decoded [OF assms] MAX_DIMENSION_def)
qed

theorem source_dimension_errors_witness:
  "readable tall_empty_photo \<and> readable example_logo
   \<and> applyWatermarkToImage example_host tall_empty_photo example_logo default_settings
     = Some (Inl (too_large_error ''tall.png'' 0 20000))
   \<and> applyWatermarkToImage example_host
        (tall_empty_photo\<lparr>contents := DataURL (Some \<lparr>width = 0, height = 300, pixels = 3\<rparr>)\<rparr>)
        example_logo default_settings
     = Some (Inl (invalid_dimensions_error ''tall.png''))"
  using source_dimension_errors [of tall_empty_photo example_logo
      "\<lparr>width = 0, height = 20000, pixels = 3\<rparr>" "\<lparr>width = 100, height = 50, pixels = 2\<rparr>"
      example_host default_settings]
    source_dimension_errors [of "tall_empty_photo\<lparr>contents := DataURL (Some \<lparr>width = 0, height = 300, pixels = 3\<rparr>)\<rparr>" example_logo
      "\<lparr>width = 0, height = 300, pixels = 3\<rparr>" "\<lparr>width = 100, height = 50, pixels = 2\<rparr>"
      example_host default_settings]
  by (simp add: tall_empty_photo_def example_logo_def)

text \<open>
  Claim C3 as stated fails: a source 0 px wide and 20000 px high is rejected with the
  too-large error, not with the invalid-dimensions error.
\<close>

theorem zero_width_too_tall_counterexample:
  "decodes_to (contents tall_empty_photo) = Some \<lparr>width = 0, height = 20000, pixels = 3\<rparr>
   \<and> applyWatermarkToImage example_host tall_empty_photo example_logo default_settings
        = Some (Inl (too_large_error ''tall.png'' 0 20000))
   \<and> applyWatermarkToImage example_host tall_empty_photo example_logo default_settings
        \<noteq> Some (Inl (invalid_dimensions_error ''tall.png''))"
  by (simp add: applyWatermarkToImage_def load_inputs_def Promise_all_def rethrow_def
      readFileAsDataURL_def loadImage_def tall_empty_photo_def example_logo_def example_host_def
      MAX_DIMENSION_def too_large_error_def invalid_dimensions_error_def)

text \<open>
  Claim C9. The dimension checks read the source only. With a source of valid dimensions,
  no call is rejected with the too-large or the invalid-dimensions error, whatever the
  logo's dimensions are; a logo of width 0 has the aspect ratio \<open>Infinity\<close> or \<open>NaN\<close> and
  a draw height that is not finite; and for a position that is not tiled the call resolves
  and passes that height to \<open>drawImage\<close>.
\<close>

theorem logo_dimensions_unchecked:
  assumes "readable imageFile" "readable logoFile"
    and "decodes_to (contents imageFile) = Some img"
    and "decodes_to (contents logoFile) = Some logo"
    and "0 < width img" "width img \<le> 16384" "0 < height img" "height img \<le> 16384"
  shows "(\<forall>fileName w' h'.
            applyWatermarkToImage h imageFile logoFile s \<noteq> Some (Inl (too_large_error fileName w' h'))
          \<and> applyWatermarkToImage h imageFile logoFile s \<noteq> Some (Inl (invalid_dimensions_error fileName)))
       \<and> (width logo = 0 \<longrightarrow>
            (aspectRatio logo = PosInf \<or> aspectRatio logo = NaN)
          \<and> \<not> is_finite (logoHeight img logo s))
       \<and> (position s \<noteq> Tiled \<and> getContext_ok h \<and> toBlob_ok h \<longrightarrow>
            (\<exists>b source_call logo_call.
               applyWatermarkToImage h imageFile logoFile s = Some (Inr b)
             \<and> blob_calls b = [source_call, logo_call]
             \<and> dsize logo_call = Some (logoWidth img s, logoHeight img logo s)))"
proof (intro conjI allI impI)
  have li: "load_inputs h imageFile logoFile =
      (if \<not> getContext_ok h then Inl no_context_error else Inr (img, logo))"
    using assms by (simp add: load_inputs_decoded [of imageFile logoFile img logo] MAX_DIMENSION_def)
  have cases: "applyWatermarkToImage h imageFile logoFile s = None
      \<or> applyWatermarkToImage h imageFile logoFile s = Some (Inl no_context_error)
      \<or> applyWatermarkToImage h imageFile logoFile s = Some (Inl (encode_error (name imageFile)))
      \<or> (\<exists>b. applyWatermarkToImage h imageFile logoFile s = Some (Inr b))"
    by (auto simp: applyWatermarkToImage_def li export_def split: option.splits)
  fix fileName w' h'
  have 1: "no_context_error \<noteq> too_large_error fileName w' h'"
    "encode_error (name imageFile) \<noteq> too_large_error fileName w' h'"
    "no_context_error \<noteq> invalid_dimensions_error fileName"
    "encode_error (name imageFile) \<noteq> invalid_dimensions_error fileName"
    by (simp_all add: no_context_error_def encode_error_def too_large_error_def
        invalid_dimensions_error_def)
  show "applyWatermarkToImage h imageFile logoFile s \<noteq> Some (Inl (too_large_error fileName w' h'))"
    using cases 1 by auto
  show "applyWatermarkToImage h imageFile logoFile s \<noteq> Some (Inl (invalid_dimensions_error fileName))"
    using cases 1 by auto
next
  assume z: "width logo = 0"
  show "aspectRatio logo = PosInf \<or> aspectRatio logo = NaN"
    by (simp add: zero_width_aspectRatio [OF z])
  then have "\<not> is_finite (aspectRatio logo)"
    by (auto simp: is_finite_def)
  then show "\<not> is_finite (logoHeight img logo s)"
    unfolding logoHeight_def by (rule times_not_finite)
next
  assume a: "position s \<noteq> Tiled \<and> getContext_ok h \<and> toBlob_ok h"
  from applyWatermarkToImage_non_tiled [OF assms, of h s] a
  show "\<exists>b source_call logo_call.
               applyWatermarkToImage h imageFile logoFile s = Some (Inr b)
             \<and> blob_calls b = [source_call, logo_call]
             \<and> dsize logo_call = Some (logoWidth img s, logoHeight img logo s)"
    by blast
qed

theorem logo_dimensions_unchecked_witness:
  "readable example_photo \<and> readable empty_logo
   \<and> decodes_to (contents empty_logo) = Some \<lparr>width = 0, height = 50, pixels = 4\<rparr>
   \<and> aspectRatio \<lparr>width = 0, height = 50, pixels = 4\<rparr> = PosInf
   \<and> (\<exists>b source_call logo_call.
         applyWatermarkToImage example_host example_photo empty_logo default_settings = Some (Inr b)
       \<and> blob_calls b = [source_call, logo_call]
       \<and> dsize logo_call = Some (Finite 80, PosInf))"
proof -
  have "logoWidth \<lparr>width = 400, height = 300, pixels = 1\<rparr> default_settings = Finite 80"
    "logoHeight \<lparr>width = 400, height = 300, pixels = 1\<rparr> \<lparr>width = 0, height = 50, pixels = 4\<rparr> default_settings = PosInf"
    "aspectRatio \<lparr>width = 0, height = 50, pixels = 4\<rparr> = PosInf"
    by (simp_all add: logoWidth_def logoHeight_def aspectRatio_def default_settings_def num_def
        round_double_values)
  with logo_dimensions_unchecked [of example_photo empty_logo
      "\<lparr>width = 400, height = 300, pixels = 1\<rparr>" "\<lparr>width = 0, height = 50, pixels = 4\<rparr>"
      example_host default_settings]
  show ?thesis
    by (simp add: example_photo_def empty_logo_def example_host_def default_settings_def)
qed

section \<open>The batch\<close>

lemma load_inputs_message: "load_inputs h f l = Inl e \<Longrightarrow> message e \<noteq> []"
  by (auto simp: load_inputs_def Promise_all_def rethrow_def readFileAsDataURL_def loadImage_def
      too_large_error_def invalid_dimensions_error_def no_context_error_def
      split: sum.splits prod.splits if_splits option.splits)

lemma applyWatermarkToImage_message:
  "applyWatermarkToImage h f l s = Some (Inl e) \<Longrightarrow> message e \<noteq> []"
  by (auto simp: applyWatermarkToImage_def export_def encode_error_def
      split: sum.splits prod.splits option.splits dest: load_inputs_message)

lemma those_map_Some:
  "(\<forall>x \<in> set xs. f x \<noteq> None) \<Longrightarrow> those (map f xs) = Some (map (\<lambda>x. the (f x)) xs)"
  by (induction xs) auto

lemma those_map_None:
  "those (map f xs) = Some ys \<Longrightarrow> (\<forall>x \<in> set xs. f x \<noteq> None) \<and> ys = map (\<lambda>x. the (f x)) xs"
  by (induction xs arbitrary: ys) (auto split: option.splits)

lemma process_item_done:
  "applyWatermarkToImage h (originalFile img) lg s = Some (Inr b) \<Longrightarrow>
   process_item h lg s img = Some (img\<lparr>previewUrl := Some b, status := StatusDone, errorMessage := None\<rparr>)"
  by (simp add: process_item_def)

lemma process_item_error:
  "applyWatermarkToImage h (originalFile img) lg s = Some (Inl e) \<Longrightarrow>
   process_item h lg s img = Some (img\<lparr>status := StatusError, errorMessage := Some (message e)\<rparr>)"
  by (simp add: process_item_def)

lemma process_item_status:
  "process_item h lg s img = Some img' \<Longrightarrow>
     id' img' = id' img \<and> originalFile img' = originalFile img
   \<and> (status img' = StatusDone \<and> previewUrl img' \<noteq> None \<and> errorMessage img' = None
      \<or> status img' = StatusError \<and> (\<exists>m. errorMessage img' = Some m \<and> m \<noteq> []))"
  by (auto simp: process_item_def split: option.splits sum.splits dest: applyWatermarkToImage_message)

lemma batch_finish_fields:
  "images (batch_finish s processed st) = processed"
  "batchErrorResults (batch_finish s processed (batch_start st)) =
     (if failures_of processed = [] then None
      else Some \<lparr>total = length processed,
                 success = length processed - length (failures_of processed),
                 failures = failures_of processed\<rparr>)"
  "isProcessing (batch_finish s processed st) = False"
  by (simp_all add: batch_finish_def batch_start_def Let_def)

lemma failures_of_empty_iff:
  "failures_of processed = [] \<longleftrightarrow> (\<forall>img \<in> set processed. status img \<noteq> StatusError)"
  by (simp add: failures_of_def filter_empty_conv)

lemma executeBatchProcessing_runs:
  assumes "logo' st = Some lg" "images st \<noteq> []"
    and "\<forall>img \<in> set (images st). process_item (hosts img) lg (settings st) img \<noteq> None"
  shows "executeBatchProcessing hosts st =
     Some (batch_finish (settings st)
             (map (\<lambda>img. the (process_item (hosts img) lg (settings st) img)) (images st))
             (batch_start st))"
  using assms by (simp add: executeBatchProcessing_def process_all_def those_map_Some)

lemma example_app_fields:
  "images example_app = [example_item ''id-1'' example_photo, example_item ''id-2'' broken_photo,
     example_item ''id-3'' example_photo]"
  "logo' example_app = Some example_logo"
  "settings example_app = default_settings"
  by (simp_all add: example_app_def handleImagesSelected_def initial_app_def Let_def example_item_def)

lemma broken_result:
  "applyWatermarkToImage example_host broken_photo example_logo default_settings
     = Some (Inl broken_photo_error)"
  by (simp add: applyWatermarkToImage_def load_inputs_def Promise_all_def rethrow_def
      readFileAsDataURL_def broken_photo_def example_logo_def example_host_def
      broken_photo_error_def)

text \<open>
  Claim C1. With a logo present, a run over N items of which exactly one fails and the
  others succeed ends with N - 1 items done, each with its output, and one item in error
  with its message, and reports the total N, the success count N - 1 and that one failure;
  every item's result is what processing that item alone gives. When every item succeeds
  no report is produced. In every finished run the report, when there is one, lists the
  failures in the order of the items.
\<close>

theorem batch_isolates_failures:
  assumes "logo' st = Some lg"
  shows "(images st = pre @ bad # post
          \<and> (\<forall>img \<in> set (pre @ post). \<exists>b.
                applyWatermarkToImage (hosts img) (originalFile img) lg (settings st) = Some (Inr b))
          \<and> applyWatermarkToImage (hosts bad) (originalFile bad) lg (settings st) = Some (Inl e)
         \<longrightarrow> (\<exists>st'. executeBatchProcessing hosts st = Some st'
               \<and> length (images st') = length (images st)
               \<and> length (filter (\<lambda>img. status img = StatusDone) (images st')) = length (images st) - 1
               \<and> (\<forall>img \<in> set (images st'). status img = StatusDone \<longrightarrow> previewUrl img \<noteq> None)
               \<and> filter (\<lambda>img. status img = StatusError) (images st')
                   = [bad\<lparr>status := StatusError, errorMessage := Some (message e)\<rparr>]
               \<and> batchErrorResults st'
                   = Some \<lparr>total = length (images st), success = length (images st) - 1,
                           failures = [\<lparr>failure_id = id' bad, failure_name = name (originalFile bad),
                                        failure_error = message e\<rparr>]\<rparr>
               \<and> (\<forall>i < length (images st).
                     Some (images st' ! i)
                       = process_item (hosts (images st ! i)) lg (settings st) (images st ! i))))
       \<and> (images st \<noteq> []
          \<and> (\<forall>img \<in> set (images st). \<exists>b.
                applyWatermarkToImage (hosts img) (originalFile img) lg (settings st) = Some (Inr b))
         \<longrightarrow> (\<exists>st'. executeBatchProcessing hosts st = Some st'
               \<and> batchErrorResults st' = None
               \<and> (\<forall>img \<in> set (images st'). status img = StatusDone \<and> previewUrl img \<noteq> None)))
       \<and> (images st \<noteq> [] \<and> executeBatchProcessing hosts st = Some st'
         \<longrightarrow> (case batchErrorResults st' of
                None \<Rightarrow> \<forall>img \<in> set (images st'). status img = StatusDone
              | Some r \<Rightarrow> total r = length (images st)
                  \<and> success r = length (filter (\<lambda>img. status img = StatusDone) (images st'))
                  \<and> failures r \<noteq> []
                  \<and> map failure_id (failures r)
                      = map id' (filter (\<lambda>img. status img = StatusError) (images st'))))"
proof (intro conjI impI)
  let ?g = "\<lambda>img. the (process_item (hosts img) lg (settings st) img)"
  assume a: "images st = pre @ bad # post
          \<and> (\<forall>img \<in> set (pre @ post). \<exists>b.
                applyWatermarkToImage (hosts img) (originalFile img) lg (settings st) = Some (Inr b))
          \<and> applyWatermarkToImage (hosts bad) (originalFile bad) lg (settings st) = Some (Inl e)"
  then have im: "images st = pre @ bad # post"
    and good: "\<forall>img \<in> set (pre @ post). \<exists>b.
                applyWatermarkToImage (hosts img) (originalFile img) lg (settings st) = Some (Inr b)"
    and bad: "applyWatermarkToImage (hosts bad) (originalFile bad) lg (settings st) = Some (Inl e)"
    by blast+
  have gbad: "process_item (hosts bad) lg (settings st) bad
      = Some (bad\<lparr>status := StatusError, errorMessage := Some (message e)\<rparr>)"
    by (rule process_item_error [OF bad])
  have ggood: "\<exists>b. process_item (hosts img) lg (settings st) img
      = Some (img\<lparr>previewUrl := Some b, status := StatusDone, errorMessage := None\<rparr>)"
    if "img \<in> set (pre @ post)" for img
    using good that process_item_done by blast
  have some: "\<forall>img \<in> set (images st). process_item (hosts img) lg (settings st) img \<noteq> None"
    unfolding im using gbad ggood by auto
  let ?st' = "batch_finish (settings st) (map ?g (images st)) (batch_start st)"
  have run: "executeBatchProcessing hosts st = Some ?st'"
    using assms some by (intro executeBatchProcessing_runs) (auto simp: im)
  have imgs: "images ?st' = map ?g pre @ ?g bad # map ?g post"
    by (simp add: batch_finish_fields im)
  have sg: "status (?g img) = StatusDone \<and> previewUrl (?g img) \<noteq> None" if "img \<in> set (pre @ post)" for img
    using ggood [OF that] by auto
  have sb: "?g bad = bad\<lparr>status := StatusError, errorMessage := Some (message e)\<rparr>"
    by (simp add: gbad)
  have fe_pre: "filter (\<lambda>img. status img = StatusError) (map ?g pre) = []"
    using sg by (auto simp: filter_empty_conv)
  have fe_post: "filter (\<lambda>img. status img = StatusError) (map ?g post) = []"
    using sg by (auto simp: filter_empty_conv)
  have fd_pre: "filter (\<lambda>img. status img = StatusDone) (map ?g pre) = map ?g pre"
    using sg by (auto simp: filter_id_conv)
  have fd_post: "filter (\<lambda>img. status img = StatusDone) (map ?g post) = map ?g post"
    using sg by (auto simp: filter_id_conv)
  have 1: "length (images ?st') = length (images st)"
    by (simp add: batch_finish_fields)
  have 2: "length (filter (\<lambda>img. status img = StatusDone) (images ?st')) = length (images st) - 1"
    unfolding imgs by (simp add: fd_pre fd_post sb im)
  have 3: "\<forall>img \<in> set (images ?st'). status img = StatusDone \<longrightarrow> previewUrl img \<noteq> None"
    unfolding imgs using sg by (auto simp: sb)
  have 4: "filter (\<lambda>img. status img = StatusError) (images ?st')
                   = [bad\<lparr>status := StatusError, errorMessage := Some (message e)\<rparr>]"
    unfolding imgs by (simp add: fe_pre fe_post sb)
  have fo: "failures_of (map ?g (images st))
      = [\<lparr>failure_id = id' bad, failure_name = name (originalFile bad), failure_error = message e\<rparr>]"
    using 4 applyWatermarkToImage_message [OF bad]
    by (simp add: failures_of_def batch_finish_fields)
  have 5: "batchErrorResults ?st'
                   = Some \<lparr>total = length (images st), success = length (images st) - 1,
                           failures = [\<lparr>failure_id = id' bad, failure_name = name (originalFile bad),
                                        failure_error = message e\<rparr>]\<rparr>"
    by (simp add: batch_finish_fields fo)
  have 6: "\<forall>i < length (images st).
                     Some (images ?st' ! i)
                       = process_item (hosts (images st ! i)) lg (settings st) (images st ! i)"
    using some by (auto simp: batch_finish_fields)
  from run 1 2 3 4 5 6
  show "\<exists>st'. executeBatchProcessing hosts st = Some st'
               \<and> length (images st') = length (images st)
               \<and> length (filter (\<lambda>img. status img = StatusDone) (images st')) = length (images st) - 1
               \<and> (\<forall>img \<in> set (images st'). status img = StatusDone \<longrightarrow> previewUrl img \<noteq> None)
               \<and> filter (\<lambda>img. status img = StatusError) (images st')
                   = [bad\<lparr>status := StatusError, errorMessage := Some (message e)\<rparr>]
               \<and> batchErrorResults st'
                   = Some \<lparr>total = length (images st), success = length (images st) - 1,
                           failures = [\<lparr>failure_id = id' bad, failure_name = name (originalFile bad),
                                        failure_error = message e\<rparr>]\<rparr>
               \<and> (\<forall>i < length (images st).
                     Some (images st' ! i)
                       = process_item (hosts (images st ! i)) lg (settings st) (images st ! i))"
    by blast
next
  let ?g = "\<lambda>img. the (process_item (hosts img) lg (settings st) img)"
  assume a: "images st \<noteq> []
          \<and> (\<forall>img \<in> set (images st). \<exists>b.
                applyWatermarkToImage (hosts img) (originalFile img) lg (settings st) = Some (Inr b))"
  have ggood: "\<exists>b. process_item (hosts img) lg (settings st) img
      = Some (img\<lparr>previewUrl := Some b, status := StatusDone, errorMessage := None\<rparr>)"
    if "img \<in> set (images st)" for img
    using a that process_item_done by blast
  then have some: "\<forall>img \<in> set (images st). process_item (hosts img) lg (settings st) img \<noteq> None"
    by auto
  let ?st' = "batch_finish (settings st) (map ?g (images st)) (batch_start st)"
  have run: "executeBatchProcessing hosts st = Some ?st'"
    using assms some a by (intro executeBatchProcessing_runs) auto
  have sg: "status (?g img) = StatusDone \<and> previewUrl (?g img) \<noteq> None" if "img \<in> set (images st)" for img
    using ggood [OF that] by auto
  then have "failures_of (map ?g (images st)) = []"
    by (auto simp: failures_of_empty_iff)
  then have 1: "batchErrorResults ?st' = None"
    by (simp add: batch_finish_fields)
  have 2: "\<forall>img \<in> set (images ?st'). status img = StatusDone \<and> previewUrl img \<noteq> None"
    using sg by (auto simp: batch_finish_fields)
  from run 1 2 show "\<exists>st'. executeBatchProcessing hosts st = Some st'
               \<and> batchErrorResults st' = None
               \<and> (\<forall>img \<in> set (images st'). status img = StatusDone \<and> previewUrl img \<noteq> None)"
    by blast
next
  assume a: "images st \<noteq> [] \<and> executeBatchProcessing hosts st = Some st'"
  then obtain processed where p: "process_all hosts lg (settings st) (images st) = Some processed"
    and st': "st' = batch_finish (settings st) processed (batch_start st)"
    using assms by (auto simp: executeBatchProcessing_def)
  from p have pr: "processed = map (\<lambda>img. the (process_item (hosts img) lg (settings st) img)) (images st)"
    and some: "\<forall>img \<in> set (images st). process_item (hosts img) lg (settings st) img \<noteq> None"
    unfolding process_all_def by (auto dest: those_map_None)
  have st: "status img = StatusDone \<or> status img = StatusError" if "img \<in> set processed" for img
  proof -
    from that obtain img0 where i0: "img0 \<in> set (images st)"
      and e: "img = the (process_item (hosts img0) lg (settings st) img0)"
      unfolding pr by auto
    from some i0 obtain y where y: "process_item (hosts img0) lg (settings st) img0 = Some y"
      by auto
    from process_item_status [OF y] show ?thesis
      unfolding e y by auto
  qed
  have len: "length processed = length (images st)"
    by (simp add: pr)
  have split: "length (filter (\<lambda>img. status img = StatusDone) processed)
      = length processed - length (filter (\<lambda>img. status img = StatusError) processed)"
  proof -
    have "filter (\<lambda>img. status img = StatusDone) processed
        = filter (\<lambda>img. \<not> status img = StatusError) processed"
      using st by (intro filter_cong) auto
    then show ?thesis
      using sum_length_filter_compl [of "\<lambda>img. status img = StatusError" processed] by simp
  qed
  show "case batchErrorResults st' of
                None \<Rightarrow> \<forall>img \<in> set (images st'). status img = StatusDone
              | Some r \<Rightarrow> total r = length (images st)
                  \<and> success r = length (filter (\<lambda>img. status img = StatusDone) (images st'))
                  \<and> failures r \<noteq> []
                  \<and> map failure_id (failures r)
                      = map id' (filter (\<lambda>img. status img = StatusError) (images st'))"
  proof (cases "failures_of processed = []")
    case True
    then have "\<forall>img \<in> set processed. status img = StatusDone"
      using st by (auto simp: failures_of_empty_iff)
    with True show ?thesis
      by (simp add: st' batch_finish_fields)
  next
    case False
    have "length (failures_of processed) = length (filter (\<lambda>img. status img = StatusError) processed)"
      by (simp add: failures_of_def)
    moreover have "map failure_id (failures_of processed)
        = map id' (filter (\<lambda>img. status img = StatusError) processed)"
      by (simp add: failures_of_def comp_def)
    ultimately show ?thesis
      using False by (simp add: st' batch_finish_fields len split)
  qed
qed

theorem batch_isolates_failures_witness:
  "logo' example_app = Some example_logo
   \<and> map (\<lambda>img. name (originalFile img)) (images example_app) = [''a.png'', ''broken.png'', ''a.png'']
   \<and> (\<exists>st'. executeBatchProcessing (\<lambda>img. example_host) example_app = Some st'
         \<and> length (images st') = 3
         \<and> length (filter (\<lambda>img. status img = StatusDone) (images st')) = 2
         \<and> batchErrorResults st'
             = Some \<lparr>total = 3, success = 2,
                     failures = [\<lparr>failure_id = ''id-2'', failure_name = ''broken.png'',
                                  failure_error = message broken_photo_error\<rparr>]\<rparr>)"
proof -
  let ?i1 = "example_item ''id-1'' example_photo"
  let ?i2 = "example_item ''id-2'' broken_photo"
  let ?i3 = "example_item ''id-3'' example_photo"
  have prem: "images example_app = [?i1] @ ?i2 # [?i3]
          \<and> (\<forall>img \<in> set ([?i1] @ [?i3]). \<exists>b.
                applyWatermarkToImage example_host (originalFile img) example_logo (settings example_app) = Some (Inr b))
          \<and> applyWatermarkToImage example_host (originalFile ?i2) example_logo (settings example_app)
               = Some (Inl broken_photo_error)"
    by (simp add: example_app_fields example_item_def example_result broken_result)
  from batch_isolates_failures [of example_app example_logo "[?i1]" ?i2 "[?i3]"
      "\<lambda>img. example_host" broken_photo_error,
      OF example_app_fields(2), THEN conjunct1, THEN mp, OF prem]
  obtain st' where r: "executeBatchProcessing (\<lambda>img. example_host) example_app = Some st'"
    and l: "length (images st') = length (images example_app)"
    and d: "length (filter (\<lambda>img. status img = StatusDone) (images st')) = length (images example_app) - 1"
    and b: "batchErrorResults st'
                   = Some \<lparr>total = length (images example_app), success = length (images example_app) - 1,
                           failures = [\<lparr>failure_id = id' ?i2, failure_name = name (originalFile ?i2),
                                        failure_error = message broken_photo_error\<rparr>]\<rparr>"
    by blast
  have n: "length (images example_app) = 3" "id' ?i2 = ''id-2''" "name (originalFile ?i2) = ''broken.png''"
    "map (\<lambda>img. name (originalFile img)) (images example_app) = [''a.png'', ''broken.png'', ''a.png'']"
    by (simp_all add: example_app_fields example_item_def broken_photo_def example_photo_def)
  show ?thesis
    using r l d b example_app_fields(2) unfolding n
    by (intro conjI exI [of _ st']) simp_all
qed

section \<open>The name of a download\<close>


lemma lastIndexOf_bounds: "- 1 \<le> lastIndexOf s ch"
  by (induction s) (auto simp: Let_def)











section \<open>The status of an item\<close>















end
